theory Spec2Isabelle
  imports Main "HOL-Library.Sublist" "HOL-Library.Char_ord" "HOL-Library.List_Lexorder"
    "HOL-Library.AList"
begin

section \<open>Strings and characters\<close>

text \<open>
  A JavaScript string is a sequence of UTF-16 code units. The model uses \<^typ>\<open>string\<close>, read as
  the code units below 256. Every code unit from 128 upwards is treated by the program's
  regular expressions exactly like any other character outside \<open>[A-Za-z0-9.-]\<close>.
\<close>

definition code :: "char \<Rightarrow> nat" where
  "code c = of_char c"

definition isUpperAZ :: "char \<Rightarrow> bool" where
  "isUpperAZ c = (65 \<le> code c \<and> code c \<le> 90)"

definition isLowerAZ :: "char \<Rightarrow> bool" where
  "isLowerAZ c = (97 \<le> code c \<and> code c \<le> 122)"

definition isDigit :: "char \<Rightarrow> bool" where
  "isDigit c = (48 \<le> code c \<and> code c \<le> 57)"

text \<open>\<open>String.prototype.toLowerCase\<close> on one code unit below 256: \<open>A-Z\<close> and the
  Latin-1 capitals \<open>0xC0-0xDE\<close> (without the multiplication sign \<open>0xD7\<close>) move up by 32.\<close>

definition toLowerCase1 :: "char \<Rightarrow> char" where
  "toLowerCase1 c =
     (if isUpperAZ c \<or> (192 \<le> code c \<and> code c \<le> 222 \<and> code c \<noteq> 215)
      then char_of (code c + 32) else c)"

definition toLowerCase :: "string \<Rightarrow> string" where
  "toLowerCase s = map toLowerCase1 s"

text \<open>The \<open>Canonicalize\<close> operation of an \<open>/i\<close> regular expression without the \<open>u\<close> flag,
  as far as it decides a comparison with an ASCII pattern character: \<open>a-z\<close> become \<open>A-Z\<close>;
  a code unit from 128 upwards never canonicalizes to an ASCII one, so it is left alone.\<close>

definition canonicalize :: "char \<Rightarrow> char" where
  "canonicalize c = (if isLowerAZ c then char_of (code c - 32) else c)"

section \<open>The overwrite confirmation\<close>

text \<open>
  \<^verbatim>\<open>/^y|yes|ok|true$/i.test(input)\<close>: alternation binds weakest, so the expression has
  four alternatives: \<open>^y\<close> (the line starts with y), \<open>yes\<close> and \<open>ok\<close> (anywhere in the
  line), and \<open>true$\<close> (the line ends with true).
\<close>

definition confirm_test :: "string \<Rightarrow> bool" where
  "confirm_test input =
     (let u = map canonicalize input in
        prefix ''Y'' u \<or> sublist ''YES'' u \<or> sublist ''OK'' u \<or> suffix ''TRUE'' u)"

text \<open>The reading of the prompt protocol in the specification: the whole line, without regard
  to case, is one of \<open>y\<close>, \<open>yes\<close>, \<open>ok\<close>, \<open>true\<close>.\<close>

definition wholeLineAffirmative :: "string \<Rightarrow> bool" where
  "wholeLineAffirmative input = (map canonicalize input \<in> {''Y'', ''YES'', ''OK'', ''TRUE''})"

section \<open>The application name\<close>

text \<open>\<open>path.basename\<close> of Node.js on a POSIX system: trailing slashes are dropped, then the
  part after the last remaining slash is returned.\<close>

definition basename :: "string \<Rightarrow> string" where
  "basename p =
     rev (takeWhile (\<lambda>c. c \<noteq> CHR ''/'') (dropWhile (\<lambda>c. c = CHR ''/'') (rev p)))"

text \<open>The character class \<open>[A-Za-z0-9.-]\<close>.\<close>

definition allowed :: "char \<Rightarrow> bool" where
  "allowed c = (isUpperAZ c \<or> isLowerAZ c \<or> isDigit c \<or> c = CHR ''.'' \<or> c = CHR ''-'')"

text \<open>\<^verbatim>\<open>.replace(/[^A-Za-z0-9.-]+/g, "-")\<close>: every maximal run of characters outside the
  class becomes one hyphen.\<close>

function replaceDisallowed :: "string \<Rightarrow> string" where
  "replaceDisallowed [] = []"
| "replaceDisallowed (c # cs) =
     (if allowed c then c # replaceDisallowed cs
      else CHR ''-'' # replaceDisallowed (dropWhile (\<lambda>d. \<not> allowed d) cs))"
  by pat_completeness auto
termination
  by (relation "measure length") (auto simp: le_imp_less_Suc length_dropWhile_le)

text \<open>The character class \<open>[-_.]\<close>.\<close>

definition isSeparator :: "char \<Rightarrow> bool" where
  "isSeparator c = (c = CHR ''-'' \<or> c = CHR ''_'' \<or> c = CHR ''.'')"

text \<open>\<^verbatim>\<open>.replace(/^[-_.]+|-+$/g, "")\<close>: the first alternative removes the leading run of
  \<open>[-_.]\<close>; scanning on, the second removes the run of hyphens that reaches the end of what
  is left.\<close>

definition stripEnds :: "string \<Rightarrow> string" where
  "stripEnds s = rev (dropWhile (\<lambda>c. c = CHR ''-'') (rev (dropWhile isSeparator s)))"

definition createAppName :: "string \<Rightarrow> string" where
  "createAppName pathName = toLowerCase (stripEnds (replaceDisallowed (basename pathName)))"

text \<open>The character class \<open>[a-z0-9.-]\<close>, and the shape of a name that has no leading
  \<open>-\<close>, \<open>_\<close> or \<open>.\<close> and no trailing \<open>-\<close>.\<close>

definition lowerAllowed :: "char \<Rightarrow> bool" where
  "lowerAllowed c = (isLowerAZ c \<or> isDigit c \<or> c = CHR ''.'' \<or> c = CHR ''-'')"

definition goodName :: "string \<Rightarrow> bool" where
  "goodName n = (list_all lowerAllowed n \<and>
      (n = [] \<or> (\<not> isSeparator (hd n) \<and> last n \<noteq> CHR ''-'')))"

section \<open>Paths\<close>

text \<open>
  The \<open>path\<close> module of Node.js, POSIX flavour. A path is cut at its slashes
  (\<open>a//b\<close> has the segments \<open>a\<close>, the empty segment and \<open>b\<close>); \<open>normalizeString\<close> walks
  the segments, skipping empty ones and \<open>.\<close>, and letting \<open>..\<close> remove the segment before it.
  A \<open>..\<close> with nothing to remove is kept when \<open>allowAboveRoot\<close> holds and dropped otherwise.
\<close>

fun splitSlash :: "string \<Rightarrow> string list" where
  "splitSlash [] = [[]]"
| "splitSlash (c # cs) =
     (if c = CHR ''/'' then [] # splitSlash cs
      else (case splitSlash cs of [] \<Rightarrow> [[c]] | seg # segs \<Rightarrow> (c # seg) # segs))"

fun joinSlash :: "string list \<Rightarrow> string" where
  "joinSlash [] = []"
| "joinSlash [seg] = seg"
| "joinSlash (seg # segs) = seg @ CHR ''/'' # joinSlash segs"

fun normalizeSegments :: "bool \<Rightarrow> string list \<Rightarrow> string list \<Rightarrow> string list" where
  "normalizeSegments allowAboveRoot res [] = rev res"
| "normalizeSegments allowAboveRoot res (seg # segs) =
     (if seg = [] \<or> seg = ''.'' then normalizeSegments allowAboveRoot res segs
      else if seg = ''..'' then
        (case res of
           [] \<Rightarrow> normalizeSegments allowAboveRoot (if allowAboveRoot then [''..''] else []) segs
         | r # rs \<Rightarrow>
             if r = ''..''
             then normalizeSegments allowAboveRoot (if allowAboveRoot then ''..'' # res else res) segs
             else normalizeSegments allowAboveRoot rs segs)
      else normalizeSegments allowAboveRoot (seg # res) segs)"

definition normalizeString :: "string \<Rightarrow> bool \<Rightarrow> string" where
  "normalizeString p allowAboveRoot =
     joinSlash (normalizeSegments allowAboveRoot [] (splitSlash p))"

definition isAbsolute :: "string \<Rightarrow> bool" where
  "isAbsolute p = (case p of [] \<Rightarrow> False | c # _ \<Rightarrow> c = CHR ''/'')"

text \<open>\<open>path.normalize\<close>.\<close>

definition normalize :: "string \<Rightarrow> string" where
  "normalize p =
     (if p = [] then ''.''
      else
        let trailingSeparator = (last p = CHR ''/'');
            q = normalizeString p (\<not> isAbsolute p)
        in if q = [] then (if isAbsolute p then ''/'' else if trailingSeparator then ''./'' else ''.'')
           else (if isAbsolute p then ''/'' else []) @ q @ (if trailingSeparator then ''/'' else []))"

text \<open>\<open>path.join(...)\<close>: the non-empty arguments are glued with slashes and normalized.\<close>

definition path_join :: "string list \<Rightarrow> string" where
  "path_join parts =
     (let joined = filter (\<lambda>a. a \<noteq> []) parts
      in if joined = [] then ''.'' else normalize (joinSlash joined))"

text \<open>\<open>path.resolve(p)\<close> with one argument; \<open>cwd\<close> is what \<open>process.cwd()\<close> returns. The
  argument is taken first; the working directory is put in front when the argument is not
  absolute.\<close>

definition resolve :: "string \<Rightarrow> string \<Rightarrow> string" where
  "resolve cwd p =
     (let r1 = (if p = [] then [] else p @ ''/'');
          abs1 = isAbsolute p;
          r2 = (if abs1 \<or> cwd = [] then r1 else cwd @ ''/'' @ r1);
          resolvedAbsolute = (abs1 \<or> isAbsolute cwd);
          res = normalizeString r2 (\<not> resolvedAbsolute)
      in if resolvedAbsolute then CHR ''/'' # res
         else if res = [] then ''.'' else res)"

text \<open>A working directory as the operating system reports it: absolute, every segment
  non-empty, free of slashes and neither \<open>.\<close> nor \<open>..\<close>.\<close>

definition properSegment :: "string \<Rightarrow> bool" where
  "properSegment seg =
     (seg \<noteq> [] \<and> seg \<noteq> ''.'' \<and> seg \<noteq> ''..'' \<and> list_all (\<lambda>c. c \<noteq> CHR ''/'') seg)"

definition absolutePath :: "string list \<Rightarrow> string" where
  "absolutePath segs = CHR ''/'' # joinSlash segs"

section \<open>JavaScript objects and the manifest\<close>

text \<open>
  An object with string keys lists its properties in insertion order: assigning to a key that
  is present replaces the value where it stands, assigning to a new key appends it. That is
  \<^const>\<open>AList.update\<close> on an association list. (JavaScript lists keys that are array
  indices first; no key of this program is one.)
\<close>

datatype jsval =
    JString string
  | JBool bool
  | JArray "jsval list"
  | JObject "(string \<times> jsval) list"

record manifest =
  pkg_name :: string
  pkg_version :: string
  pkg_private :: bool
  pkg_type :: string
  scripts :: "(string \<times> string) list"
  dependencies :: "(string \<times> string) list"
  devDependencies :: "(string \<times> string) list"

text \<open>The \<open>sorted-object\<close> package: a fresh object that receives the keys of the input in
  the order of \<open>Object.keys(input).sort()\<close>, which compares strings code unit by code unit.\<close>

definition sortedObject :: "(string \<times> 'v) list \<Rightarrow> (string \<times> 'v) list" where
  "sortedObject input =
     fold (\<lambda>key output. case map_of input key of
                           None \<Rightarrow> output
                         | Some v \<Rightarrow> AList.update key v output)
          (sort (map fst input)) []"

subsection \<open>\<open>JSON.stringify(pkg, null, 2)\<close>\<close>

definition hexDigit :: "nat \<Rightarrow> char" where
  "hexDigit n = (if n < 10 then char_of (48 + n) else char_of (87 + n))"

definition quoteChar :: "char \<Rightarrow> string" where
  "quoteChar c =
     (if code c = 8 then [CHR 0x5C, CHR ''b'']
      else if code c = 9 then [CHR 0x5C, CHR ''t'']
      else if code c = 10 then [CHR 0x5C, CHR ''n'']
      else if code c = 12 then [CHR 0x5C, CHR ''f'']
      else if code c = 13 then [CHR 0x5C, CHR ''r'']
      else if c = CHR 0x22 then [CHR 0x5C, CHR 0x22]
      else if c = CHR 0x5C then [CHR 0x5C, CHR 0x5C]
      else if code c < 32 then [CHR 0x5C] @ ''u00'' @ [hexDigit (code c div 16), hexDigit (code c mod 16)]
      else [c])"

definition quoteJSON :: "string \<Rightarrow> string" where
  "quoteJSON str = CHR 0x22 # concat (map quoteChar str) @ [CHR 0x22]"

fun joinLines :: "string list \<Rightarrow> string" where
  "joinLines [] = []"
| "joinLines [l] = l"
| "joinLines (l # ls) = l @ '','' @ [CHR 0x0A] @ joinLines ls"

text \<open>An object whose property values are already serialized, at the given indentation.\<close>

definition stringifyObject :: "string \<Rightarrow> (string \<times> string) list \<Rightarrow> string" where
  "stringifyObject indent props =
     (if props = [] then ''{}''
      else ''{'' @ [CHR 0x0A]
           @ joinLines (map (\<lambda>(k, v). indent @ ''  '' @ quoteJSON k @ '': '' @ v) props)
           @ [CHR 0x0A] @ indent @ ''}'')"

definition stringifyStrings :: "string \<Rightarrow> (string \<times> string) list \<Rightarrow> string" where
  "stringifyStrings indent obj = stringifyObject indent (map (\<lambda>(k, v). (k, quoteJSON v)) obj)"

definition JSON_stringify :: "manifest \<Rightarrow> string" where
  "JSON_stringify pkg =
     stringifyObject []
       [(''name'', quoteJSON (pkg_name pkg)),
        (''version'', quoteJSON (pkg_version pkg)),
        (''private'', if pkg_private pkg then ''true'' else ''false''),
        (''type'', quoteJSON (pkg_type pkg)),
        (''scripts'', stringifyStrings ''  '' (scripts pkg)),
        (''dependencies'', stringifyStrings ''  '' (dependencies pkg)),
        (''devDependencies'', stringifyStrings ''  '' (devDependencies pkg))]"

section \<open>The world around the program\<close>

text \<open>
  What the run reads from outside: the directory of the script (\<open>__dirname\<close>), the working
  directory, the files and directory listings of the file system (\<open>Inl\<close> carries the
  \<open>code\<close> of the error that the call raises), the \<open>ejs\<close> renderer (\<open>None\<close> when it throws)
  and the line typed at the prompt.
\<close>

record env =
  dirname :: string
  cwd :: string
  readFileSync :: "string \<Rightarrow> string + string"
  readdirSync :: "string \<Rightarrow> string + string list"
  readdir :: "string \<Rightarrow> string + string list"
  ejs_render :: "string \<Rightarrow> (string \<times> jsval) list \<Rightarrow> string option"
  stdin_line :: string

text \<open>The options that \<open>commander\<close> parsed, and the positional arguments.\<close>

record program =
  git :: bool
  pg :: bool
  dev :: bool
  test :: bool
  force :: bool
  args :: "string list"

text \<open>What the run does to the outside, in order. The progress lines of \<open>console.log\<close>
  are left out.\<close>

datatype event =
    MkdirpSync string nat
  | WriteFileSync string string nat
  | Question string
  | StdinDestroy
  | ConsoleError string
  | Exit nat

datatype error =
    FsError string string
  | RenderError
  | TypeError

definition MODE_0666 :: nat where
  "MODE_0666 = 438"

definition MODE_0755 :: nat where
  "MODE_0755 = 493"

definition TEMPLATE_DIR :: "env \<Rightarrow> string" where
  "TEMPLATE_DIR e = path_join [dirname e, ''..'', ''templates'']"

record template =
  contents :: string
  locals :: "(string \<times> jsval) list"

text \<open>The variables of \<open>createApplication\<close> together with the trace of effects and the
  pending exception. \<open>app\<close> and \<open>www\<close> are undefined until \<open>loadTemplate\<close> has filled them;
  the model holds an empty template there, which nothing reads before.\<close>

record state =
  pkg :: manifest
  app :: template
  www :: template
  trace :: "event list"
  thrown :: "error option"

text \<open>A statement runs only while no exception is pending; a sequence of statements runs
  front to back.\<close>

definition stmt :: "(state \<Rightarrow> state) \<Rightarrow> state \<Rightarrow> state" where
  "stmt f s = (if thrown s = None then f s else s)"

definition run :: "(state \<Rightarrow> state) list \<Rightarrow> state \<Rightarrow> state" where
  "run stmts s = fold stmt stmts s"

definition throw :: "error \<Rightarrow> state \<Rightarrow> state" where
  "throw err s = s\<lparr>thrown := Some err\<rparr>"

definition emit :: "event \<Rightarrow> state \<Rightarrow> state" where
  "emit ev s = s\<lparr>trace := trace s @ [ev]\<rparr>"

section \<open>File operations of the generator\<close>

text \<open>\<open>write(file, str, mode)\<close>, named \<open>write_file\<close> here: \<open>mode || MODE_0666\<close> takes the
  default when the mode is missing or zero.\<close>

definition write_file :: "string \<Rightarrow> string \<Rightarrow> nat option \<Rightarrow> state \<Rightarrow> state" where
  "write_file file str mode =
     emit (WriteFileSync file str
            (case mode of None \<Rightarrow> MODE_0666 | Some m \<Rightarrow> if m = 0 then MODE_0666 else m))"

definition mkdir :: "string \<Rightarrow> string \<Rightarrow> state \<Rightarrow> state" where
  "mkdir base dir = emit (MkdirpSync (path_join [base, dir]) MODE_0755)"

text \<open>\<open>copyTemplate(from, to)\<close>: the template is read first; a failed read raises before
  anything is written.\<close>

definition copyTemplate :: "env \<Rightarrow> string \<Rightarrow> string \<Rightarrow> state \<Rightarrow> state" where
  "copyTemplate e from to s =
     (case readFileSync e (path_join [TEMPLATE_DIR e, from]) of
        Inl c \<Rightarrow> throw (FsError c (path_join [TEMPLATE_DIR e, from])) s
      | Inr str \<Rightarrow> write_file to str None s)"

subsection \<open>Matching template names\<close>

text \<open>
  \<open>minimatch\<close> for the patterns the generator passes: literal characters, \<open>*\<close> and \<open>?\<close>.
  Characters are compared as they are (the \<open>nocase\<close> option is off), a wildcard never
  matches a slash, and a pattern that starts with a wildcard does not match a name that
  starts with a dot (the \<open>dot\<close> option is off). With \<open>matchBase\<close>, a pattern without a
  slash is compared with the basename of the path.
\<close>

fun glob :: "string \<Rightarrow> string \<Rightarrow> bool" where
  "glob [] [] = True"
| "glob [] (c # cs) = False"
| "glob (p # ps) [] = (p = CHR ''*'' \<and> glob ps [])"
| "glob (p # ps) (c # cs) =
     (if p = CHR ''*'' then glob ps (c # cs) \<or> (c \<noteq> CHR ''/'' \<and> glob (p # ps) cs)
      else if p = CHR ''?'' then c \<noteq> CHR ''/'' \<and> glob ps cs
      else p = c \<and> glob ps cs)"

definition startsWithWildcard :: "string \<Rightarrow> bool" where
  "startsWithWildcard pat = (case pat of [] \<Rightarrow> False | p # _ \<Rightarrow> p = CHR ''*'' \<or> p = CHR ''?'')"

definition minimatch_filter :: "string \<Rightarrow> string \<Rightarrow> bool" where
  "minimatch_filter pat p =
     (let f = (if CHR ''/'' \<in> set pat then p else basename p)
      in f \<noteq> [] \<and> \<not> (startsWithWildcard pat \<and> prefix ''.'' f) \<and> glob pat f)"

text \<open>\<open>copyTemplateMulti(fromDir, toDir, nameGlob)\<close>: one directory listing, filtered, and
  one copy for each name that is left, in the order of the listing.\<close>

definition copyTemplateMulti :: "env \<Rightarrow> string \<Rightarrow> string \<Rightarrow> string \<Rightarrow> state \<Rightarrow> state" where
  "copyTemplateMulti e fromDir toDir nameGlob s =
     (case readdirSync e (path_join [TEMPLATE_DIR e, fromDir]) of
        Inl c \<Rightarrow> throw (FsError c (path_join [TEMPLATE_DIR e, fromDir])) s
      | Inr names \<Rightarrow>
          run (map (\<lambda>name. copyTemplate e (path_join [fromDir, name]) (path_join [toDir, name]))
                   (filter (minimatch_filter nameGlob) names)) s)"

subsection \<open>Templates\<close>

definition loadTemplate :: "env \<Rightarrow> string \<Rightarrow> error + template" where
  "loadTemplate e name =
     (case readFileSync e (path_join [dirname e, ''..'', ''templates'', name @ ''.ejs'']) of
        Inl c \<Rightarrow> Inl (FsError c (path_join [dirname e, ''..'', ''templates'', name @ ''.ejs'']))
      | Inr str \<Rightarrow> Inr \<lparr>contents = str, locals = []\<rparr>)"

definition render :: "env \<Rightarrow> template \<Rightarrow> error + string" where
  "render e t = (case ejs_render e (contents t) (locals t) of
                   None \<Rightarrow> Inl RenderError
                 | Some str \<Rightarrow> Inr str)"

text \<open>Assignments to the variables of \<open>createApplication\<close>.\<close>

definition loadApp :: "env \<Rightarrow> string \<Rightarrow> state \<Rightarrow> state" where
  "loadApp e name s = (case loadTemplate e name of
                         Inl err \<Rightarrow> throw err s
                       | Inr t \<Rightarrow> s\<lparr>app := t\<rparr>)"

definition loadWww :: "env \<Rightarrow> string \<Rightarrow> state \<Rightarrow> state" where
  "loadWww e name s = (case loadTemplate e name of
                         Inl err \<Rightarrow> throw err s
                       | Inr t \<Rightarrow> s\<lparr>www := t\<rparr>)"

definition setLocal :: "string \<Rightarrow> jsval \<Rightarrow> template \<Rightarrow> template" where
  "setLocal k v t = t\<lparr>locals := AList.update k v (locals t)\<rparr>"

text \<open>\<open>t.locals.obj.k = v\<close> and \<open>t.locals.arr.push(v)\<close>; a missing or differently shaped
  local makes the member access raise.\<close>

definition setLocalMember :: "string \<Rightarrow> string \<Rightarrow> jsval \<Rightarrow> template \<Rightarrow> error + template" where
  "setLocalMember obj k v t =
     (case map_of (locals t) obj of
        Some (JObject props) \<Rightarrow> Inr (setLocal obj (JObject (AList.update k v props)) t)
      | _ \<Rightarrow> Inl TypeError)"

definition pushLocal :: "string \<Rightarrow> jsval \<Rightarrow> template \<Rightarrow> error + template" where
  "pushLocal arr v t =
     (case map_of (locals t) arr of
        Some (JArray vs) \<Rightarrow> Inr (setLocal arr (JArray (vs @ [v])) t)
      | _ \<Rightarrow> Inl TypeError)"

definition onApp :: "(template \<Rightarrow> error + template) \<Rightarrow> state \<Rightarrow> state" where
  "onApp f s = (case f (app s) of Inl err \<Rightarrow> throw err s | Inr t \<Rightarrow> s\<lparr>app := t\<rparr>)"

definition setDependency :: "string \<Rightarrow> string \<Rightarrow> state \<Rightarrow> state" where
  "setDependency k v s = s\<lparr>pkg := (pkg s)\<lparr>dependencies := AList.update k v (dependencies (pkg s))\<rparr>\<rparr>"

definition setDevDependency :: "string \<Rightarrow> string \<Rightarrow> state \<Rightarrow> state" where
  "setDevDependency k v s =
     s\<lparr>pkg := (pkg s)\<lparr>devDependencies := AList.update k v (devDependencies (pkg s))\<rparr>\<rparr>"

definition setScript :: "string \<Rightarrow> string \<Rightarrow> state \<Rightarrow> state" where
  "setScript k v s = s\<lparr>pkg := (pkg s)\<lparr>scripts := AList.update k v (scripts (pkg s))\<rparr>\<rparr>"

definition sortDependencies :: "state \<Rightarrow> state" where
  "sortDependencies s = s\<lparr>pkg := (pkg s)\<lparr>dependencies := sortedObject (dependencies (pkg s))\<rparr>\<rparr>"

definition writeRendered :: "env \<Rightarrow> string \<Rightarrow> (state \<Rightarrow> template) \<Rightarrow> nat option \<Rightarrow> state \<Rightarrow> state" where
  "writeRendered e file which mode s =
     (case render e (which s) of
        Inl err \<Rightarrow> throw err s
      | Inr str \<Rightarrow> write_file file str mode s)"

definition writePackage :: "string \<Rightarrow> state \<Rightarrow> state" where
  "writePackage file s = write_file file (JSON_stringify (pkg s) @ [CHR 0x0A]) None s"

definition assignApp :: "string \<Rightarrow> jsval \<Rightarrow> state \<Rightarrow> state" where
  "assignApp k v s = s\<lparr>app := setLocal k v (app s)\<rparr>"

definition assignWww :: "string \<Rightarrow> jsval \<Rightarrow> state \<Rightarrow> state" where
  "assignWww k v s = s\<lparr>www := setLocal k v (www s)\<rparr>"

section \<open>Creating the application\<close>

text \<open>The object literal that \<open>createApplication\<close> starts from.\<close>

definition initialPackage :: "string \<Rightarrow> manifest" where
  "initialPackage name =
     \<lparr>pkg_name = name,
      pkg_version = ''0.0.0'',
      pkg_private = True,
      pkg_type = ''module'',
      scripts = [(''start'', ''node ./bin/www.js'')],
      dependencies = [(''debug'', ''~2.6.9''), (''express'', ''~4.16.1'')],
      devDependencies = []\<rparr>"

definition initialState :: "string \<Rightarrow> state" where
  "initialState name =
     \<lparr>pkg = initialPackage name,
      app = \<lparr>contents = [], locals = []\<rparr>,
      www = \<lparr>contents = [], locals = []\<rparr>,
      trace = [],
      thrown = None\<rparr>"

text \<open>The statements of \<open>createApplication(name, dir)\<close> after the object literal, one
  list entry for each, in the order of the source.\<close>

definition createApplicationBody ::
    "env \<Rightarrow> program \<Rightarrow> string \<Rightarrow> string \<Rightarrow> (state \<Rightarrow> state) list" where
  "createApplicationBody e program name dir =
       ((if pg program
         then [setDependency ''pg'' ''^8.7.1'']
              @ (if dev program
                 then [setDevDependency ''dotenv'' ''^10.0.0'',
                       setScript ''db:createusers''
                         ''node -r dotenv/config ./db/scripts/users/createTable.js'']
                 else [setScript ''db:createusers'' ''node ./db/scripts/users/createTable.js''])
         else [])
        @ (if dev program
           then [setDevDependency ''dotenv'' ''^10.0.0'',
                 setDevDependency ''nodemon'' ''^2.0.15'',
                 setScript ''dev'' ''nodemon -r dotenv/config ./bin/www.js'']
           else [])
        @ [loadApp e ''js/app.js'',
           loadWww e ''js/www.js'',
           assignWww ''name'' (JString name),
           assignApp ''localModules'' (JObject []),
           assignApp ''modules'' (JObject []),
           assignApp ''mounts'' (JArray []),
           assignApp ''uses'' (JArray []),
           onApp (setLocalMember ''modules'' ''logger'' (JString ''morgan'')),
           onApp (pushLocal ''uses'' (JString (''logger('' @ [CHR 0x27] @ ''dev'' @ [CHR 0x27] @ '')''))),
           setDependency ''morgan'' ''~1.9.1'',
           onApp (setLocalMember ''modules'' ''cors'' (JString ''cors'')),
           onApp (pushLocal ''uses'' (JString ''cors()'')),
           setDependency ''cors'' ''^2.8.5'',
           onApp (pushLocal ''uses'' (JString ''express.json()'')),
           onApp (pushLocal ''uses'' (JString ''express.urlencoded({ extended: false })'')),
           onApp (setLocalMember ''modules'' ''cookieParser'' (JString ''cookie-parser'')),
           onApp (pushLocal ''uses'' (JString ''cookieParser()'')),
           setDependency ''cookie-parser'' ''~1.4.4'']
        @ (if dir \<noteq> ''.'' then [mkdir dir ''.''] else [])
        @ [mkdir dir ''public'',
           mkdir dir ''public/js'',
           mkdir dir ''public/images'',
           mkdir dir ''public/css'']
        @ (if pg program
           then [mkdir dir ''models'',
                 mkdir dir ''db'',
                 mkdir dir ''db/scripts'',
                 mkdir dir ''db/scripts/users'',
                 copyTemplate e ''models/users.js'' (path_join [dir, ''models'', ''users.js'']),
                 copyTemplate e ''db/connection.js'' (path_join [dir, ''db'', ''connection.js'']),
                 copyTemplate e ''db/scripts/users/createTable.js''
                   (path_join [dir, ''db'', ''scripts'', ''users'', ''createTable.js''])]
           else [])
        @ (if test program
           then [copyTemplate e ''js/app.test.js'' (path_join [dir, ''app.test.js'']),
                 setScript ''test'' ''node --experimental-vm-modules node_modules/jest/bin/jest.js'',
                 setDevDependency ''jest'' ''^27.4.5'',
                 setDevDependency ''supertest'' ''^6.1.6'']
           else [])
        @ [copyTemplateMulti e ''css'' (dir @ ''/public/css'') ''*.css'',
           mkdir dir ''routes'',
           copyTemplateMulti e ''js/routes'' (dir @ ''/routes'') ''*.js'',
           copyTemplate e ''js/index.html'' (path_join [dir, ''public/index.html'']),
           onApp (setLocalMember ''modules'' ''__dirname'' (JString ''./dirname.js'')),
           onApp (setLocalMember ''localModules'' ''usersRouter'' (JString ''./routes/users.js'')),
           onApp (pushLocal ''mounts''
                   (JObject [(''path'', JString ''/users''), (''code'', JString ''usersRouter'')])),
           assignApp ''view'' (JBool False),
           onApp (pushLocal ''uses''
                   (JString (''express.static(path.join(__dirname, '' @ [CHR 0x22] @ ''public''
                             @ [CHR 0x22] @ ''))'')))]
        @ (if git program
           then [copyTemplate e ''js/gitignore'' (path_join [dir, ''.gitignore''])]
           else [])
        @ [copyTemplate e ''js/dirname.js'' (path_join [dir, ''dirname.js'']),
           sortDependencies,
           writeRendered e (path_join [dir, ''app.js'']) app None,
           writePackage (path_join [dir, ''package.json'']),
           mkdir dir ''bin'',
           writeRendered e (path_join [dir, ''bin/www.js'']) www (Some MODE_0755)])"

definition createApplication :: "env \<Rightarrow> program \<Rightarrow> string \<Rightarrow> string \<Rightarrow> state" where
  "createApplication e program name dir =
     run (createApplicationBody e program name dir) (initialState name)"

section \<open>The main program\<close>

text \<open>\<open>emptyDirectory(dir, fn)\<close>: an error other than \<open>ENOENT\<close> is raised; otherwise the
  callback receives whether the listing is missing or empty.\<close>

definition emptyDirectory :: "env \<Rightarrow> string \<Rightarrow> error + bool" where
  "emptyDirectory e dir =
     (case readdir e dir of
        Inl c \<Rightarrow> if c \<noteq> ''ENOENT'' then Inl (FsError c dir) else Inr True
      | Inr files \<Rightarrow> Inr (files = []))"

definition destinationPath :: "program \<Rightarrow> string" where
  "destinationPath program =
     (case args program of [] \<Rightarrow> ''.'' | a # _ \<Rightarrow> if a = [] then ''.'' else a)"

definition appName :: "env \<Rightarrow> program \<Rightarrow> string" where
  "appName e program =
     (let n = createAppName (resolve (cwd e) (destinationPath program))
      in if n = [] then ''hello-world'' else n)"

text \<open>The run of \<open>main()\<close>: the trace of effects and the exception that ended it, if any.
  \<open>confirm\<close> writes the question, reads one line and hands the result of the test on that line
  to its callback.\<close>

definition main :: "env \<Rightarrow> program \<Rightarrow> event list \<times> error option" where
  "main e program =
     (case emptyDirectory e (destinationPath program) of
        Inl err \<Rightarrow> ([], Some err)
      | Inr isEmpty \<Rightarrow>
          if isEmpty \<or> force program
          then (let s = createApplication e program (appName e program) (destinationPath program)
                in (trace s, thrown s))
          else if confirm_test (stdin_line e)
          then (let s = createApplication e program (appName e program) (destinationPath program)
                in ([Question ''destination is not empty, continue? [y/N] '', StdinDestroy] @ trace s,
                    thrown s))
          else ([Question ''destination is not empty, continue? [y/N] '',
                 ConsoleError ''aborting'',
                 Exit 1], None))"

section \<open>Auxiliary notions for the proofs\<close>

text \<open>\<open>after fs s Q\<close>: when the statements \<open>fs\<close> run from \<open>s\<close> to the end without an
  exception, the final state satisfies \<open>Q\<close>.\<close>

definition after :: "(state \<Rightarrow> state) list \<Rightarrow> state \<Rightarrow> (state \<Rightarrow> bool) \<Rightarrow> bool" where
  "after fs s Q = (thrown (run fs s) = None \<longrightarrow> Q (run fs s))"

text \<open>A statement that only appends \<open>mkdirp\<close> and \<open>writeFile\<close> events to the trace.\<close>

fun isFsEvent :: "event \<Rightarrow> bool" where
  "isFsEvent (MkdirpSync p m) = True"
| "isFsEvent (WriteFileSync p str m) = True"
| "isFsEvent ev = False"

definition fsEffects :: "(state \<Rightarrow> state) \<Rightarrow> bool" where
  "fsEffects f = (\<forall>s. \<exists>evs. trace (f s) = trace s @ evs \<and> list_all isFsEvent evs)"

text \<open>A statement that leaves the manifest and both templates alone.\<close>

definition frame :: "(state \<Rightarrow> state) \<Rightarrow> bool" where
  "frame f = (\<forall>s. pkg (f s) = pkg s \<and> app (f s) = app s \<and> www (f s) = www s)"

text \<open>The manifest in closed form, shown below to be the one a completed run has built.\<close>

definition finalPackage :: "program \<Rightarrow> string \<Rightarrow> manifest" where
  "finalPackage program name =
     \<lparr>pkg_name = name,
      pkg_version = ''0.0.0'',
      pkg_private = True,
      pkg_type = ''module'',
      scripts = [(''start'', ''node ./bin/www.js'')]
        @ (if pg program
           then [(''db:createusers'',
                  if dev program then ''node -r dotenv/config ./db/scripts/users/createTable.js''
                  else ''node ./db/scripts/users/createTable.js'')]
           else [])
        @ (if dev program then [(''dev'', ''nodemon -r dotenv/config ./bin/www.js'')] else [])
        @ (if test program
           then [(''test'', ''node --experimental-vm-modules node_modules/jest/bin/jest.js'')]
           else []),
      dependencies = [(''cookie-parser'', ''~1.4.4''), (''cors'', ''^2.8.5''), (''debug'', ''~2.6.9''),
                      (''express'', ''~4.16.1''), (''morgan'', ''~1.9.1'')]
        @ (if pg program then [(''pg'', ''^8.7.1'')] else []),
      devDependencies =
        (if dev program then [(''dotenv'', ''^10.0.0''), (''nodemon'', ''^2.0.15'')] else [])
        @ (if test program then [(''jest'', ''^27.4.5''), (''supertest'', ''^6.1.6'')] else [])\<rparr>"

text \<open>The path of a file system event.\<close>

fun eventPath :: "event \<Rightarrow> string" where
  "eventPath (MkdirpSync p m) = p"
| "eventPath (WriteFileSync p str m) = p"
| "eventPath ev = []"

subsection \<open>A sample installation\<close>

text \<open>The generator installed under \<open>/opt/generator\<close> with one stylesheet and two route
  stubs, started in \<open>/home/dev/My App\<close>; \<open>listing\<close> is what reading the destination
  directory gives and \<open>line\<close> the answer typed at the prompt.\<close>

definition sampleEnv :: "string + string list \<Rightarrow> string \<Rightarrow> env" where
  "sampleEnv listing line =
     \<lparr>dirname = ''/opt/generator/bin'',
      cwd = ''/home/dev/My App'',
      readFileSync = (\<lambda>p. Inr (''// '' @ p)),
      readdirSync = (\<lambda>p. if p = ''/opt/generator/templates/css'' then Inr [''style.css'']
                          else if p = ''/opt/generator/templates/js/routes''
                          then Inr [''users.js'', ''index.js'']
                          else Inl ''ENOENT''),
      readdir = (\<lambda>p. listing),
      ejs_render = (\<lambda>str ls. Some str),
      stdin_line = line\<rparr>"

definition sampleProgram :: "bool \<Rightarrow> bool \<Rightarrow> bool \<Rightarrow> string list \<Rightarrow> program" where
  "sampleProgram p d t as = \<lparr>git = False, pg = p, dev = d, test = t, force = False, args = as\<rparr>"

text \<open>The same installation with every template directory listed as \<open>names\<close>.\<close>

definition listingEnv :: "string list \<Rightarrow> env" where
  "listingEnv names = (sampleEnv (Inr []) [])\<lparr>readdirSync := (\<lambda>p. Inr names)\<rparr>"

section \<open>Properties of the application name\<close>

lemma code_char_of: "n < 256 \<Longrightarrow> code (char_of n) = n"
  by (simp add: code_def)

lemma allowed_replaceDisallowed: "list_all allowed (replaceDisallowed s)"
  by (induction s rule: replaceDisallowed.induct) (simp_all add: allowed_def)

lemma set_stripEnds: "set (stripEnds s) \<subseteq> set s"
proof -
  have "set (stripEnds s) \<subseteq> set (dropWhile isSeparator s)"
    unfolding stripEnds_def using set_dropWhileD by fastforce
  also have "\<dots> \<subseteq> set s" using set_dropWhileD by fastforce
  finally show ?thesis .
qed

lemma toLowerCase1_allowed: "allowed c \<Longrightarrow> lowerAllowed (toLowerCase1 c)"
  unfolding allowed_def lowerAllowed_def toLowerCase1_def isUpperAZ_def isLowerAZ_def isDigit_def
  by (auto simp: code_char_of) (simp_all add: code_def)

lemma toLowerCase1_fixed: "lowerAllowed c \<Longrightarrow> toLowerCase1 c = c"
  unfolding lowerAllowed_def toLowerCase1_def isUpperAZ_def isLowerAZ_def isDigit_def
  by (auto simp: code_def)

lemma toLowerCase1_code:
  "allowed c \<Longrightarrow> code (toLowerCase1 c) = (if isUpperAZ c then code c + 32 else code c)"
  unfolding allowed_def toLowerCase1_def isUpperAZ_def isLowerAZ_def isDigit_def
  by (auto simp: code_char_of) (simp_all add: code_def)

lemma isSeparator_code: "isSeparator c \<longleftrightarrow> code c = 45 \<or> code c = 95 \<or> code c = 46"
  unfolding isSeparator_def code_def
  using of_char_eq_iff [of c "CHR ''-''", where ?'a = nat]
    of_char_eq_iff [of c "CHR ''_''", where ?'a = nat]
    of_char_eq_iff [of c "CHR ''.''", where ?'a = nat]
  by simp

lemma hyphen_code: "c = CHR ''-'' \<longleftrightarrow> code c = 45"
  unfolding code_def using of_char_eq_iff [of c "CHR ''-''", where ?'a = nat] by simp

lemma toLowerCase1_separator: "allowed c \<Longrightarrow> isSeparator (toLowerCase1 c) \<Longrightarrow> isSeparator c"
  by (auto simp: isSeparator_code toLowerCase1_code isUpperAZ_def split: if_splits)

lemma toLowerCase1_hyphen: "allowed c \<Longrightarrow> toLowerCase1 c = CHR ''-'' \<Longrightarrow> c = CHR ''-''"
  by (auto simp: hyphen_code toLowerCase1_code isUpperAZ_def split: if_splits)

lemma stripEnds_ends:
  "stripEnds s = [] \<or> (\<not> isSeparator (hd (stripEnds s)) \<and> last (stripEnds s) \<noteq> CHR ''-'')"
proof (cases "stripEnds s = []")
  case True then show ?thesis by simp
next
  case False
  define t where "t = dropWhile isSeparator s"
  define r where "r = dropWhile (\<lambda>c. c = CHR ''-'') (rev t)"
  have se: "stripEnds s = rev r" by (simp add: stripEnds_def t_def r_def)
  with False have rne: "r \<noteq> []" by simp
  then have hr: "hd r \<noteq> CHR ''-''" unfolding r_def using hd_dropWhile by blast
  define us where "us = takeWhile (\<lambda>c. c = CHR ''-'') (rev t)"
  have us: "rev t = us @ r" unfolding r_def us_def by simp
  have "rev (rev t) = rev (us @ r)" by (simp only: us)
  then have t: "t = rev r @ rev us" by simp
  have tne: "t \<noteq> []" using t rne by simp
  then have "\<not> isSeparator (hd t)" unfolding t_def using hd_dropWhile by blast
  moreover have "hd t = hd (rev r)" using t rne by simp
  ultimately have "\<not> isSeparator (hd (stripEnds s))" using se by simp
  moreover have "last (stripEnds s) \<noteq> CHR ''-''" using se rne hr by (simp add: last_rev)
  ultimately show ?thesis by simp
qed

lemma stripEnds_fixed:
  assumes "n = [] \<or> (\<not> isSeparator (hd n) \<and> last n \<noteq> CHR ''-'')"
  shows "stripEnds n = n"
proof (cases n)
  case Nil then show ?thesis by (simp add: stripEnds_def)
next
  case (Cons a as)
  with assms have 1: "\<not> isSeparator a" and 2: "last n \<noteq> CHR ''-''" by auto
  from 1 Cons have d: "dropWhile isSeparator n = n" by simp
  from Cons have "n \<noteq> []" by simp
  then obtain bs l where bl: "n = bs @ [l]" by (metis rev_exhaust)
  with 2 have "l \<noteq> CHR ''-''" by simp
  then have "dropWhile (\<lambda>c. c = CHR ''-'') (rev n) = rev n" by (simp add: bl)
  with d show ?thesis by (simp add: stripEnds_def)
qed

lemma replaceDisallowed_fixed: "list_all allowed n \<Longrightarrow> replaceDisallowed n = n"
  by (induction n) simp_all

lemma basename_fixed: "CHR ''/'' \<notin> set n \<Longrightarrow> basename n = n"
proof -
  assume a: "CHR ''/'' \<notin> set n"
  have d: "dropWhile (\<lambda>c. c = CHR ''/'') (rev n) = rev n"
  proof (cases "rev n")
    case Nil then show ?thesis by simp
  next
    case (Cons b bs)
    then have "b \<in> set (rev n)" by simp
    with a have "b \<noteq> CHR ''/''" by auto
    with Cons show ?thesis by simp
  qed
  have t: "takeWhile (\<lambda>c. c \<noteq> CHR ''/'') (rev n) = rev n"
    using a by auto
  show ?thesis unfolding basename_def d t by simp
qed

lemma goodName_createAppName: "goodName (createAppName p)"
proof -
  define t where "t = stripEnds (replaceDisallowed (basename p))"
  have al: "list_all allowed t"
    unfolding t_def using allowed_replaceDisallowed [of "basename p"] set_stripEnds
    by (auto simp: list_all_iff)
  have n: "createAppName p = map toLowerCase1 t" by (simp add: createAppName_def t_def toLowerCase_def)
  have 1: "list_all lowerAllowed (createAppName p)"
    using al by (auto simp: n list_all_iff toLowerCase1_allowed)
  have 2: "createAppName p = [] \<or> (\<not> isSeparator (hd (createAppName p)) \<and> last (createAppName p) \<noteq> CHR ''-'')"
  proof (cases "t = []")
    case True then show ?thesis by (simp add: n)
  next
    case False
    with stripEnds_ends [of "replaceDisallowed (basename p)"]
    have e: "\<not> isSeparator (hd t)" "last t \<noteq> CHR ''-''" by (auto simp: t_def)
    from False al have "allowed (hd t)" "allowed (last t)" by (auto simp: list_all_iff)
    with e False show ?thesis
      using toLowerCase1_separator toLowerCase1_hyphen by (auto simp: n hd_map last_map)
  qed
  from 1 2 show ?thesis by (simp add: goodName_def)
qed

lemma createAppName_fixed: "goodName n \<Longrightarrow> createAppName n = n"
proof -
  assume g: "goodName n"
  then have la: "list_all lowerAllowed n" by (simp add: goodName_def)
  then have al: "list_all allowed n" by (auto simp: list_all_iff lowerAllowed_def allowed_def)
  have "CHR ''/'' \<notin> set n"
    using la by (auto simp: list_all_iff lowerAllowed_def isLowerAZ_def isDigit_def code_def)
  then have "basename n = n" by (rule basename_fixed)
  moreover have "replaceDisallowed n = n" using al by (rule replaceDisallowed_fixed)
  moreover have "stripEnds n = n" using g by (intro stripEnds_fixed) (simp add: goodName_def)
  moreover have "map toLowerCase1 n = n" using la by (simp add: list_all_iff map_idI toLowerCase1_fixed)
  ultimately show ?thesis by (simp add: createAppName_def toLowerCase_def)
qed

text \<open>
  C6: normalizing a name that \<open>createAppName\<close> produced gives the same name again, for every
  path string.
\<close>

theorem createAppName_idempotent: "createAppName (createAppName p) = createAppName p"
  by (rule createAppName_fixed) (rule goodName_createAppName)

lemma goodName_shape:
  assumes "goodName n"
  shows "list_all lowerAllowed n \<and> \<not> prefix ''-'' n \<and> \<not> prefix ''_'' n
         \<and> \<not> prefix ''.'' n \<and> \<not> suffix ''-'' n"
proof (cases n)
  case Nil
  then show ?thesis by simp
next
  case (Cons a as)
  with assms have "\<not> isSeparator a" "last (a # as) \<noteq> CHR ''-''" "list_all lowerAllowed (a # as)"
    by (auto simp: goodName_def)
  moreover have "suffix ''-'' (a # as) \<Longrightarrow> last (a # as) = CHR ''-''"
    unfolding suffix_def by (metis last_snoc)
  ultimately show ?thesis unfolding Cons
    by (auto simp: isSeparator_def)
qed

lemma goodName_appName: "goodName (appName e program)"
proof -
  have "goodName ''hello-world''"
    by (simp add: goodName_def lowerAllowed_def isSeparator_def isLowerAZ_def isDigit_def code_def)
  then show ?thesis
    by (simp add: appName_def Let_def goodName_createAppName)
qed

text \<open>
  C5: for every path string the name that \<open>createAppName\<close> produces consists of characters of
  \<open>[a-z0-9.-]\<close> only, does not begin with \<open>-\<close>, \<open>_\<close> or \<open>.\<close>, and does not end with \<open>-\<close>;
  the same holds for the name that \<open>main\<close> passes on, with its fallback.
\<close>

theorem createAppName_charset:
  "list_all lowerAllowed (createAppName p)
   \<and> \<not> prefix ''-'' (createAppName p) \<and> \<not> prefix ''_'' (createAppName p)
   \<and> \<not> prefix ''.'' (createAppName p) \<and> \<not> suffix ''-'' (createAppName p)
   \<and> list_all lowerAllowed (appName e program)
   \<and> \<not> prefix ''-'' (appName e program) \<and> \<not> prefix ''_'' (appName e program)
   \<and> \<not> prefix ''.'' (appName e program) \<and> \<not> suffix ''-'' (appName e program)"
  using goodName_shape [OF goodName_createAppName [of p]]
    goodName_shape [OF goodName_appName [of e program]]
  by simp

lemma createAppName_examples:
  "createAppName ''/home/user/My App__'' = ''my-app''"
  "createAppName ''--Foo..Bar--'' = ''foo..bar''"
  "createAppName ''.'' = []"
  by code_simp+

section \<open>Properties of the confirmation\<close>

lemma confirm_test_whole_line: "wholeLineAffirmative input \<Longrightarrow> confirm_test input"
  unfolding wholeLineAffirmative_def confirm_test_def Let_def
  by (auto simp: suffix_def)

text \<open>
  C2: an input line counts as affirmative if and only if the whole line is, without regard to
  case, one of \<open>y\<close>, \<open>yes\<close>, \<open>ok\<close>, \<open>true\<close>. The expression in \<open>confirm\<close> accepts more: the
  line \<open>not ok\<close> is none of the four words and is taken as affirmative.
\<close>

theorem confirm_test_accepts_not_ok:
  "confirm_test ''not ok'' \<and> \<not> wholeLineAffirmative ''not ok''"
  by code_simp

section \<open>Running statement lists\<close>

lemma run_Nil [simp]: "run [] s = s"
  by (simp add: run_def)

lemma run_Cons: "run (f # fs) s = run fs (stmt f s)"
  by (simp add: run_def)

lemma run_thrown: "thrown s \<noteq> None \<Longrightarrow> run fs s = s"
  by (induction fs arbitrary: s) (auto simp: run_Cons stmt_def)

lemma run_Cons_ok:
  assumes "thrown s = None" and "thrown (run (f # fs) s) = None"
  shows "run (f # fs) s = run fs (f s)" and "thrown (f s) = None"
proof -
  from assms(1) show eq: "run (f # fs) s = run fs (f s)" by (simp add: run_Cons stmt_def)
  show "thrown (f s) = None"
  proof (rule ccontr)
    assume "thrown (f s) \<noteq> None"
    then have "run fs (f s) = f s" by (rule run_thrown)
    with eq assms(2) \<open>thrown (f s) \<noteq> None\<close> show False by simp
  qed
qed

lemma after_Nil: "Q s \<Longrightarrow> after [] s Q"
  by (simp add: after_def)

lemma after_Cons:
  assumes "thrown s = None" and "thrown (f s) = None \<Longrightarrow> after fs (f s) Q"
  shows "after (f # fs) s Q"
  unfolding after_def
proof
  assume t: "thrown (run (f # fs) s) = None"
  from run_Cons_ok [OF assms(1) t] assms(2) t show "Q (run (f # fs) s)"
    by (simp add: after_def)
qed

section \<open>What each statement touches\<close>

lemma emit_simps [simp]:
  "pkg (emit ev s) = pkg s" "app (emit ev s) = app s" "www (emit ev s) = www s"
  "thrown (emit ev s) = thrown s" "trace (emit ev s) = trace s @ [ev]"
  by (simp_all add: emit_def)

lemma throw_simps [simp]:
  "pkg (throw err s) = pkg s" "app (throw err s) = app s" "www (throw err s) = www s"
  "thrown (throw err s) = Some err" "trace (throw err s) = trace s"
  by (simp_all add: throw_def)

lemma write_file_simps [simp]:
  "pkg (write_file file str m s) = pkg s" "app (write_file file str m s) = app s"
  "www (write_file file str m s) = www s" "thrown (write_file file str m s) = thrown s"
  "trace (write_file file str None s) = trace s @ [WriteFileSync file str MODE_0666]"
  by (simp_all add: write_file_def)

lemma mkdir_simps [simp]:
  "pkg (mkdir base d s) = pkg s" "app (mkdir base d s) = app s"
  "www (mkdir base d s) = www s" "thrown (mkdir base d s) = thrown s"
  "trace (mkdir base d s) = trace s @ [MkdirpSync (path_join [base, d]) MODE_0755]"
  by (simp_all add: mkdir_def)

lemma setDependency_simps [simp]:
  "pkg (setDependency k v s) = dependencies_update (AList.update k v) (pkg s)"
  "app (setDependency k v s) = app s" "www (setDependency k v s) = www s"
  "thrown (setDependency k v s) = thrown s" "trace (setDependency k v s) = trace s"
  by (cases s; cases "pkg s"; simp add: setDependency_def)+

lemma setDevDependency_simps [simp]:
  "pkg (setDevDependency k v s) = devDependencies_update (AList.update k v) (pkg s)"
  "app (setDevDependency k v s) = app s" "www (setDevDependency k v s) = www s"
  "thrown (setDevDependency k v s) = thrown s" "trace (setDevDependency k v s) = trace s"
  by (cases s; cases "pkg s"; simp add: setDevDependency_def)+

lemma setScript_simps [simp]:
  "pkg (setScript k v s) = scripts_update (AList.update k v) (pkg s)"
  "app (setScript k v s) = app s" "www (setScript k v s) = www s"
  "thrown (setScript k v s) = thrown s" "trace (setScript k v s) = trace s"
  by (cases s; cases "pkg s"; simp add: setScript_def)+

lemma sortDependencies_simps [simp]:
  "pkg (sortDependencies s) = dependencies_update sortedObject (pkg s)"
  "app (sortDependencies s) = app s" "www (sortDependencies s) = www s"
  "thrown (sortDependencies s) = thrown s" "trace (sortDependencies s) = trace s"
  by (cases s; cases "pkg s"; simp add: sortDependencies_def)+

lemma assignApp_simps [simp]:
  "pkg (assignApp k v s) = pkg s" "www (assignApp k v s) = www s"
  "thrown (assignApp k v s) = thrown s" "trace (assignApp k v s) = trace s"
  by (simp_all add: assignApp_def)

lemma assignWww_simps [simp]:
  "pkg (assignWww k v s) = pkg s" "app (assignWww k v s) = app s"
  "thrown (assignWww k v s) = thrown s" "trace (assignWww k v s) = trace s"
  by (simp_all add: assignWww_def)

lemma onApp_simps [simp]:
  "pkg (onApp g s) = pkg s" "www (onApp g s) = www s" "trace (onApp g s) = trace s"
  by (simp_all add: onApp_def split: sum.splits)

lemma loadApp_simps [simp]:
  "pkg (loadApp e n s) = pkg s" "www (loadApp e n s) = www s" "trace (loadApp e n s) = trace s"
  by (simp_all add: loadApp_def split: sum.splits)

lemma loadWww_simps [simp]:
  "pkg (loadWww e n s) = pkg s" "app (loadWww e n s) = app s" "trace (loadWww e n s) = trace s"
  by (simp_all add: loadWww_def split: sum.splits)

lemma copyTemplate_simps [simp]:
  "pkg (copyTemplate e a b s) = pkg s" "app (copyTemplate e a b s) = app s"
  "www (copyTemplate e a b s) = www s"
  by (simp_all add: copyTemplate_def split: sum.splits)

lemma copyTemplate_ok:
  assumes "thrown (copyTemplate e a b s) = None"
  shows "\<exists>str. readFileSync e (path_join [TEMPLATE_DIR e, a]) = Inr str
               \<and> trace (copyTemplate e a b s) = trace s @ [WriteFileSync b str MODE_0666]"
  using assms by (simp add: copyTemplate_def split: sum.splits)

lemma writeRendered_simps [simp]:
  "pkg (writeRendered e file w m s) = pkg s" "app (writeRendered e file w m s) = app s"
  "www (writeRendered e file w m s) = www s"
  by (simp_all add: writeRendered_def split: sum.splits)

lemma writePackage_simps [simp]:
  "pkg (writePackage file s) = pkg s" "app (writePackage file s) = app s"
  "www (writePackage file s) = www s" "thrown (writePackage file s) = thrown s"
  "trace (writePackage file s)
     = trace s @ [WriteFileSync file (JSON_stringify (pkg s) @ [CHR 0x0A]) MODE_0666]"
  by (simp_all add: writePackage_def)

lemma initialState_simps [simp]:
  "pkg (initialState name) = initialPackage name" "trace (initialState name) = []"
  "thrown (initialState name) = None"
  by (simp_all add: initialState_def)

section \<open>Statements that only add file system events\<close>

lemma fsEffects_silent: "(\<And>s. trace (f s) = trace s) \<Longrightarrow> fsEffects f"
  by (simp add: fsEffects_def)

lemma fsEffects_emit: "isFsEvent ev \<Longrightarrow> fsEffects (emit ev)"
  by (simp add: fsEffects_def)

lemma fsEffects_write_file [simp]: "fsEffects (write_file file str m)"
  unfolding write_file_def by (rule fsEffects_emit) simp

lemma fsEffects_mkdir [simp]: "fsEffects (mkdir base d)"
  unfolding mkdir_def by (rule fsEffects_emit) simp

lemma fsEffects_pure [simp]:
  "fsEffects (setDependency k v)" "fsEffects (setDevDependency k v)" "fsEffects (setScript k v)"
  "fsEffects sortDependencies" "fsEffects (assignApp k w)" "fsEffects (assignWww k w)"
  "fsEffects (onApp g)" "fsEffects (loadApp e n)" "fsEffects (loadWww e n)"
  by (rule fsEffects_silent, simp)+

lemma fsEffects_copyTemplate [simp]: "fsEffects (copyTemplate e a b)"
  unfolding fsEffects_def
proof
  fix s
  show "\<exists>evs. trace (copyTemplate e a b s) = trace s @ evs \<and> list_all isFsEvent evs"
    by (cases "readFileSync e (path_join [TEMPLATE_DIR e, a])")
       (simp_all add: copyTemplate_def write_file_def)
qed

lemma fsEffects_writeRendered [simp]: "fsEffects (writeRendered e file w m)"
  unfolding fsEffects_def
proof
  fix s
  show "\<exists>evs. trace (writeRendered e file w m s) = trace s @ evs \<and> list_all isFsEvent evs"
    by (cases "render e (w s)") (simp_all add: writeRendered_def write_file_def)
qed

lemma fsEffects_writePackage [simp]: "fsEffects (writePackage file)"
  by (simp add: fsEffects_def)

lemma fsEffects_stmt: "fsEffects f \<Longrightarrow> fsEffects (stmt f)"
  by (simp add: fsEffects_def stmt_def)

lemma fsEffects_run: "(\<forall>f\<in>set fs. fsEffects f) \<Longrightarrow> fsEffects (run fs)"
proof (induction fs)
  case Nil
  then show ?case by (simp add: fsEffects_def)
next
  case (Cons f fs)
  then have 1: "fsEffects (stmt f)" and 2: "fsEffects (run fs)" by (simp_all add: fsEffects_stmt)
  show ?case unfolding fsEffects_def
  proof
    fix s
    from 1 obtain evs where a: "trace (stmt f s) = trace s @ evs" "list_all isFsEvent evs"
      unfolding fsEffects_def by blast
    from 2 obtain evs' where b: "trace (run fs (stmt f s)) = trace (stmt f s) @ evs'"
      "list_all isFsEvent evs'" unfolding fsEffects_def by blast
    from a b have "trace (run (f # fs) s) = trace s @ (evs @ evs') \<and> list_all isFsEvent (evs @ evs')"
      by (simp add: run_Cons)
    then show "\<exists>evs. trace (run (f # fs) s) = trace s @ evs \<and> list_all isFsEvent evs" by blast
  qed
qed

lemma fsEffects_copyTemplateMulti [simp]: "fsEffects (copyTemplateMulti e fromDir toDir nameGlob)"
proof -
  have r: "\<And>names. fsEffects (run (map (\<lambda>name. copyTemplate e (path_join [fromDir, name])
                                                 (path_join [toDir, name])) names))"
    by (rule fsEffects_run) auto
  show ?thesis unfolding fsEffects_def
  proof
    fix s
    show "\<exists>evs. trace (copyTemplateMulti e fromDir toDir nameGlob s) = trace s @ evs
                \<and> list_all isFsEvent evs"
    proof (cases "readdirSync e (path_join [TEMPLATE_DIR e, fromDir])")
      case (Inl c)
      then show ?thesis by (simp add: copyTemplateMulti_def)
    next
      case (Inr names)
      with r [of "filter (minimatch_filter nameGlob) names"] show ?thesis
        by (simp add: copyTemplateMulti_def fsEffects_def)
    qed
  qed
qed

lemma mem_fsEffects: "fsEffects f \<Longrightarrow> ev \<in> set (trace s) \<Longrightarrow> ev \<in> set (trace (f s))"
  unfolding fsEffects_def by (metis Un_iff set_append)

section \<open>Statements that leave the manifest alone\<close>

lemma frame_copyTemplate: "frame (copyTemplate e a b)"
  by (simp add: frame_def)

lemma frame_stmt: "frame f \<Longrightarrow> frame (stmt f)"
  by (simp add: frame_def stmt_def)

lemma frame_run: "(\<forall>f\<in>set fs. frame f) \<Longrightarrow> frame (run fs)"
proof (induction fs)
  case Nil
  then show ?case by (simp add: frame_def)
next
  case (Cons f fs)
  then have "frame (stmt f)" and "frame (run fs)" by (simp_all add: frame_stmt)
  then show ?case by (simp add: frame_def run_Cons)
qed

lemma frame_copyTemplateMulti: "frame (copyTemplateMulti e fromDir toDir nameGlob)"
proof -
  have r: "\<And>names. frame (run (map (\<lambda>name. copyTemplate e (path_join [fromDir, name])
                                             (path_join [toDir, name])) names))"
    by (rule frame_run) (auto simp: frame_copyTemplate)
  show ?thesis unfolding frame_def
  proof
    fix s
    show "pkg (copyTemplateMulti e fromDir toDir nameGlob s) = pkg s
        \<and> app (copyTemplateMulti e fromDir toDir nameGlob s) = app s
        \<and> www (copyTemplateMulti e fromDir toDir nameGlob s) = www s"
    proof (cases "readdirSync e (path_join [TEMPLATE_DIR e, fromDir])")
      case (Inl c)
      then show ?thesis by (simp add: copyTemplateMulti_def)
    next
      case (Inr names)
      with r [of "filter (minimatch_filter nameGlob) names"] show ?thesis
        by (simp add: copyTemplateMulti_def frame_def)
    qed
  qed
qed

lemma copyTemplateMulti_simps [simp]:
  "pkg (copyTemplateMulti e a b g s) = pkg s" "app (copyTemplateMulti e a b g s) = app s"
  "www (copyTemplateMulti e a b g s) = www s"
  using frame_copyTemplateMulti [of e a b g] by (simp_all add: frame_def)

section \<open>The whole body\<close>

lemma body_fsEffects: "\<forall>f\<in>set (createApplicationBody e program name dir). fsEffects f"
  by (auto simp: createApplicationBody_def)

lemma createApplication_fsEffects:
  "list_all isFsEvent (trace (createApplication e program name dir))"
proof -
  have "fsEffects (run (createApplicationBody e program name dir))"
    by (rule fsEffects_run) (rule body_fsEffects)
  then obtain evs where
    "trace (run (createApplicationBody e program name dir) (initialState name))
       = trace (initialState name) @ evs" "list_all isFsEvent evs"
    unfolding fsEffects_def by blast
  then show ?thesis by (simp add: createApplication_def)
qed

lemma run_copyTemplate_written:
  assumes "\<forall>f\<in>set fs. fsEffects f" and "copyTemplate e a b \<in> set fs"
    and "thrown s = None" and "thrown (run fs s) = None"
  shows "\<exists>str. readFileSync e (path_join [TEMPLATE_DIR e, a]) = Inr str
               \<and> WriteFileSync b str MODE_0666 \<in> set (trace (run fs s))"
  using assms
proof (induction fs arbitrary: s)
  case Nil
  then show ?case by simp
next
  case (Cons f fs)
  from run_Cons_ok [OF Cons.prems(3) Cons.prems(4)]
  have eq: "run (f # fs) s = run fs (f s)" and ok: "thrown (f s) = None" by simp_all
  from Cons.prems(1) have fx: "fsEffects (run fs)" by (intro fsEffects_run) simp
  show ?case
  proof (cases "f = copyTemplate e a b")
    case True
    with ok obtain str where str: "readFileSync e (path_join [TEMPLATE_DIR e, a]) = Inr str"
      "trace (f s) = trace s @ [WriteFileSync b str MODE_0666]"
      using copyTemplate_ok by blast
    then have "WriteFileSync b str MODE_0666 \<in> set (trace (f s))" by simp
    with fx have "WriteFileSync b str MODE_0666 \<in> set (trace (run fs (f s)))"
      by (rule mem_fsEffects)
    with str(1) eq show ?thesis by auto
  next
    case False
    with Cons.prems(2) have "copyTemplate e a b \<in> set fs" by simp
    moreover from Cons.prems(1) have "\<forall>f\<in>set fs. fsEffects f" by simp
    moreover from Cons.prems(4) eq have "thrown (run fs (f s)) = None" by simp
    ultimately show ?thesis using Cons.IH [of "f s"] ok eq by simp
  qed
qed

lemma sortedObject_base:
  "sortedObject [(''debug'', ''~2.6.9''), (''express'', ''~4.16.1''), (''morgan'', ''~1.9.1''),
                 (''cors'', ''^2.8.5''), (''cookie-parser'', ''~1.4.4'')]
   = [(''cookie-parser'', ''~1.4.4''), (''cors'', ''^2.8.5''), (''debug'', ''~2.6.9''),
      (''express'', ''~4.16.1''), (''morgan'', ''~1.9.1'')]"
  by code_simp

lemma sortedObject_pg:
  "sortedObject [(''debug'', ''~2.6.9''), (''express'', ''~4.16.1''), (''pg'', ''^8.7.1''),
                 (''morgan'', ''~1.9.1''), (''cors'', ''^2.8.5''), (''cookie-parser'', ''~1.4.4'')]
   = [(''cookie-parser'', ''~1.4.4''), (''cors'', ''^2.8.5''), (''debug'', ''~2.6.9''),
      (''express'', ''~4.16.1''), (''morgan'', ''~1.9.1''), (''pg'', ''^8.7.1'')]"
  by code_simp

lemma createApplication_package:
  assumes "thrown (createApplication e program name dir) = None"
  shows "pkg (createApplication e program name dir) = finalPackage program name"
    and "WriteFileSync (path_join [dir, ''package.json''])
           (JSON_stringify (finalPackage program name) @ [CHR 0x0A]) MODE_0666
         \<in> set (trace (createApplication e program name dir))"
proof -
  have init: "thrown (initialState name) = None" by simp
  have "after (createApplicationBody e program name dir) (initialState name)
          (\<lambda>s. pkg s = finalPackage program name
             \<and> WriteFileSync (path_join [dir, ''package.json''])
                  (JSON_stringify (finalPackage program name) @ [CHR 0x0A]) MODE_0666
               \<in> set (trace s))"
    unfolding createApplicationBody_def
    by (cases "pg program"; cases "dev program"; cases "test program"; cases "git program";
        cases "dir = ''.''"; insert init;
        simp del: initialState_simps; (erule after_Cons)+; rule after_Nil;
        simp add: initialPackage_def finalPackage_def sortedObject_base sortedObject_pg;
        rule mem_fsEffects [OF fsEffects_writeRendered];
        simp add: initialPackage_def finalPackage_def sortedObject_base sortedObject_pg)
  with assms show "pkg (createApplication e program name dir) = finalPackage program name"
    and "WriteFileSync (path_join [dir, ''package.json''])
           (JSON_stringify (finalPackage program name) @ [CHR 0x0A]) MODE_0666
         \<in> set (trace (createApplication e program name dir))"
    by (simp_all add: after_def createApplication_def)
qed

section \<open>The generated manifest\<close>

lemma dependencies_sorted:
  "thrown (createApplication e program name dir) = None \<Longrightarrow>
   sorted (map fst (dependencies (pkg (createApplication e program name dir))))"
  by (simp add: createApplication_package(1) finalPackage_def)

text \<open>
  C1: in the manifest written to \<open>package.json\<close> the keys of \<open>dependencies\<close> and of
  \<open>devDependencies\<close> are in alphabetical order for every combination of flags. The keys of
  \<open>dependencies\<close> are (lemma \<open>dependencies_sorted\<close>); those of \<open>devDependencies\<close> stay in
  insertion order, and with the dev and test flags together \<open>nodemon\<close> is written before
  \<open>jest\<close>.
\<close>

theorem devDependencies_unsorted:
  "thrown (createApplication (sampleEnv (Inl ''ENOENT'') []) (sampleProgram False True True [])
             ''my-app'' ''.'') = None
   \<and> map fst (devDependencies (pkg (createApplication (sampleEnv (Inl ''ENOENT'') [])
                                      (sampleProgram False True True []) ''my-app'' ''.'')))
       = [''dotenv'', ''nodemon'', ''jest'', ''supertest'']
   \<and> \<not> sorted [''dotenv'', ''nodemon'', ''jest'', ''supertest'']"
proof -
  have t: "thrown (createApplication (sampleEnv (Inl ''ENOENT'') []) (sampleProgram False True True [])
             ''my-app'' ''.'') = None" by code_simp
  from createApplication_package(1) [OF t] show ?thesis
    using t by (simp add: finalPackage_def sampleProgram_def)
qed

text \<open>
  C3, as stated: destination \<open>.\<close> and no flags give a manifest whose \<open>dependencies\<close> are
  exactly \<open>debug\<close> and \<open>express\<close>. The sample run completes with other keys.
\<close>

theorem no_flags_dependencies_counterexample:
  "thrown (createApplication (sampleEnv (Inl ''ENOENT'') []) (sampleProgram False False False [])
             ''my-app'' ''.'') = None
   \<and> map fst (dependencies (pkg (createApplication (sampleEnv (Inl ''ENOENT'') [])
                                   (sampleProgram False False False []) ''my-app'' ''.'')))
       \<noteq> [''debug'', ''express'']"
proof -
  have t: "thrown (createApplication (sampleEnv (Inl ''ENOENT'') []) (sampleProgram False False False [])
             ''my-app'' ''.'') = None" by code_simp
  from createApplication_package(1) [OF t] show ?thesis
    using t by (simp add: finalPackage_def sampleProgram_def)
qed

text \<open>
  C3, amended: with destination \<open>.\<close> and no flags, a run that completes has written a
  \<open>package.json\<close> whose \<open>dependencies\<close> keys are exactly \<open>cookie-parser\<close>, \<open>cors\<close>, \<open>debug\<close>,
  \<open>express\<close>, \<open>morgan\<close>, in alphabetical order (so without \<open>pg\<close>).
\<close>

theorem no_flags_dependencies:
  assumes "\<not> git program" and "\<not> pg program" and "\<not> dev program" and "\<not> test program"
    and "thrown (createApplication e program name ''.'') = None"
  shows "map fst (dependencies (pkg (createApplication e program name ''.'')))
           = [''cookie-parser'', ''cors'', ''debug'', ''express'', ''morgan'']
       \<and> sorted (map fst (dependencies (pkg (createApplication e program name ''.''))))
       \<and> WriteFileSync ''package.json''
            (JSON_stringify (pkg (createApplication e program name ''.'')) @ [CHR 0x0A]) MODE_0666
          \<in> set (trace (createApplication e program name ''.''))"
proof -
  have p: "path_join [''.'', ''package.json''] = ''package.json''" by code_simp
  from createApplication_package [OF assms(5)] assms(2) show ?thesis
    by (simp add: finalPackage_def p)
qed

theorem no_flags_dependencies_witness:
  "\<not> git (sampleProgram False False False []) \<and> \<not> pg (sampleProgram False False False [])
   \<and> \<not> dev (sampleProgram False False False []) \<and> \<not> test (sampleProgram False False False [])
   \<and> thrown (createApplication (sampleEnv (Inr []) []) (sampleProgram False False False [])
               ''my-app'' ''.'') = None
   \<and> map fst (dependencies (pkg (createApplication (sampleEnv (Inr []) [])
                                   (sampleProgram False False False []) ''my-app'' ''.'')))
       = [''cookie-parser'', ''cors'', ''debug'', ''express'', ''morgan'']
   \<and> WriteFileSync ''package.json''
        (JSON_stringify (pkg (createApplication (sampleEnv (Inr []) [])
                               (sampleProgram False False False []) ''my-app'' ''.'')) @ [CHR 0x0A])
        MODE_0666
      \<in> set (trace (createApplication (sampleEnv (Inr []) []) (sampleProgram False False False [])
                      ''my-app'' ''.''))"
proof -
  have t: "thrown (createApplication (sampleEnv (Inr []) []) (sampleProgram False False False [])
             ''my-app'' ''.'') = None" by code_simp
  have f: "\<not> git (sampleProgram False False False [])" "\<not> pg (sampleProgram False False False [])"
    "\<not> dev (sampleProgram False False False [])" "\<not> test (sampleProgram False False False [])"
    by (simp_all add: sampleProgram_def)
  from no_flags_dependencies [OF f t] f t show ?thesis by simp
qed

text \<open>
  C7: with the pg and dev flags, a run that completes has written a \<open>package.json\<close> with
  \<open>pg\<close> among the dependencies, \<open>dotenv\<close> and \<open>nodemon\<close> among the devDependencies and the
  \<open>db:createusers\<close> script that preloads dotenv, and it has written \<open>models/users.js\<close> and
  \<open>db/scripts/users/createTable.js\<close> under the destination, each with the text of its template.
\<close>

theorem database_dev_scenario:
  assumes "pg program" and "dev program"
    and "thrown (createApplication e program name dir) = None"
  shows "''pg'' \<in> set (map fst (dependencies (pkg (createApplication e program name dir))))
       \<and> ''dotenv'' \<in> set (map fst (devDependencies (pkg (createApplication e program name dir))))
       \<and> ''nodemon'' \<in> set (map fst (devDependencies (pkg (createApplication e program name dir))))
       \<and> map_of (scripts (pkg (createApplication e program name dir))) ''db:createusers''
           = Some ''node -r dotenv/config ./db/scripts/users/createTable.js''
       \<and> WriteFileSync (path_join [dir, ''package.json''])
            (JSON_stringify (pkg (createApplication e program name dir)) @ [CHR 0x0A]) MODE_0666
          \<in> set (trace (createApplication e program name dir))
       \<and> (\<exists>str. readFileSync e (path_join [TEMPLATE_DIR e, ''models/users.js'']) = Inr str
              \<and> WriteFileSync (path_join [dir, ''models'', ''users.js'']) str MODE_0666
                \<in> set (trace (createApplication e program name dir)))
       \<and> (\<exists>str. readFileSync e (path_join [TEMPLATE_DIR e, ''db/scripts/users/createTable.js''])
                  = Inr str
              \<and> WriteFileSync (path_join [dir, ''db'', ''scripts'', ''users'', ''createTable.js''])
                   str MODE_0666
                \<in> set (trace (createApplication e program name dir)))"
proof -
  note pk = createApplication_package [OF assms(3)]
  have init: "thrown (initialState name) = None" by simp
  have run: "thrown (run (createApplicationBody e program name dir) (initialState name)) = None"
    using assms(3) by (simp add: createApplication_def)
  have m1: "copyTemplate e ''models/users.js'' (path_join [dir, ''models'', ''users.js''])
              \<in> set (createApplicationBody e program name dir)"
    using assms(1) by (simp add: createApplicationBody_def)
  have m2: "copyTemplate e ''db/scripts/users/createTable.js''
              (path_join [dir, ''db'', ''scripts'', ''users'', ''createTable.js''])
              \<in> set (createApplicationBody e program name dir)"
    using assms(1) by (simp add: createApplicationBody_def)
  note w1 = run_copyTemplate_written [OF body_fsEffects m1 init run]
  note w2 = run_copyTemplate_written [OF body_fsEffects m2 init run]
  from pk assms(1,2) have
    "''pg'' \<in> set (map fst (dependencies (pkg (createApplication e program name dir))))"
    "''dotenv'' \<in> set (map fst (devDependencies (pkg (createApplication e program name dir))))"
    "''nodemon'' \<in> set (map fst (devDependencies (pkg (createApplication e program name dir))))"
    "map_of (scripts (pkg (createApplication e program name dir))) ''db:createusers''
       = Some ''node -r dotenv/config ./db/scripts/users/createTable.js''"
    "WriteFileSync (path_join [dir, ''package.json''])
            (JSON_stringify (pkg (createApplication e program name dir)) @ [CHR 0x0A]) MODE_0666
          \<in> set (trace (createApplication e program name dir))"
    by (simp_all add: finalPackage_def)
  with w1 w2 show ?thesis by (simp add: createApplication_def)
qed

lemma sampleEnv_simps [simp]:
  "readdir (sampleEnv listing line) p = listing"
  "stdin_line (sampleEnv listing line) = line"
  "readFileSync (sampleEnv listing line) p = Inr (''// '' @ p)"
  "cwd (sampleEnv listing line) = ''/home/dev/My App''"
  by (simp_all add: sampleEnv_def)

lemma sampleProgram_simps [simp]:
  "git (sampleProgram p d t as) = False" "pg (sampleProgram p d t as) = p"
  "dev (sampleProgram p d t as) = d" "test (sampleProgram p d t as) = t"
  "force (sampleProgram p d t as) = False" "args (sampleProgram p d t as) = as"
  by (simp_all add: sampleProgram_def)

lemma sample_TEMPLATE_DIR: "TEMPLATE_DIR (sampleEnv listing line) = ''/opt/generator/templates''"
proof -
  have "path_join [''/opt/generator/bin'', ''..'', ''templates''] = ''/opt/generator/templates''"
    by code_simp
  then show ?thesis by (simp add: TEMPLATE_DIR_def sampleEnv_def)
qed

theorem database_dev_scenario_witness:
  "pg (sampleProgram True True False [''my-app'']) \<and> dev (sampleProgram True True False [''my-app''])
   \<and> thrown (createApplication (sampleEnv (Inl ''ENOENT'') []) (sampleProgram True True False [''my-app''])
               ''my-app'' ''my-app'') = None
   \<and> ''pg'' \<in> set (map fst (dependencies (pkg (createApplication (sampleEnv (Inl ''ENOENT'') [])
                        (sampleProgram True True False [''my-app'']) ''my-app'' ''my-app''))))
   \<and> WriteFileSync ''my-app/models/users.js'' ''// /opt/generator/templates/models/users.js'' MODE_0666
      \<in> set (trace (createApplication (sampleEnv (Inl ''ENOENT'') [])
                      (sampleProgram True True False [''my-app'']) ''my-app'' ''my-app''))
   \<and> WriteFileSync ''my-app/db/scripts/users/createTable.js''
        ''// /opt/generator/templates/db/scripts/users/createTable.js'' MODE_0666
      \<in> set (trace (createApplication (sampleEnv (Inl ''ENOENT'') [])
                      (sampleProgram True True False [''my-app'']) ''my-app'' ''my-app''))"
proof -
  have t: "thrown (createApplication (sampleEnv (Inl ''ENOENT'') [])
                    (sampleProgram True True False [''my-app'']) ''my-app'' ''my-app'') = None"
    by code_simp
  have f: "pg (sampleProgram True True False [''my-app''])" "dev (sampleProgram True True False [''my-app''])"
    by simp_all
  have p: "path_join [''my-app'', ''models'', ''users.js''] = ''my-app/models/users.js''"
    "path_join [''my-app'', ''db'', ''scripts'', ''users'', ''createTable.js'']
       = ''my-app/db/scripts/users/createTable.js''"
    "path_join [''/opt/generator/templates'', ''models/users.js'']
       = ''/opt/generator/templates/models/users.js''"
    "path_join [''/opt/generator/templates'', ''db/scripts/users/createTable.js'']
       = ''/opt/generator/templates/db/scripts/users/createTable.js''"
    by code_simp+
  from database_dev_scenario [OF f t] t show ?thesis
    by (auto simp: sample_TEMPLATE_DIR p)
qed

section \<open>Properties of the main program\<close>


lemma main_asks_when_not_empty:
  assumes "readdir e (destinationPath program) = Inr files" and "files \<noteq> []"
    and "\<not> force program"
  shows "hd (fst (main e program)) = Question ''destination is not empty, continue? [y/N] ''"
  using assms by (simp add: main_def emptyDirectory_def Let_def)


text \<open>
  C9: when reading the destination fails with \<open>ENOENT\<close>, the run is that of
  \<open>createApplication\<close>, whatever the force flag says, and its trace holds file system events
  only, so no question is asked.
\<close>

theorem main_missing_destination:
  assumes "readdir e (destinationPath program) = Inl ''ENOENT''"
  shows "main e program
           = (trace (createApplication e program (appName e program) (destinationPath program)),
              thrown (createApplication e program (appName e program) (destinationPath program)))
       \<and> list_all isFsEvent (fst (main e program))"
  using assms by (simp add: main_def emptyDirectory_def Let_def createApplication_fsEffects)

theorem main_missing_destination_witness:
  "readdir (sampleEnv (Inl ''ENOENT'') []) (destinationPath (sampleProgram False False False [''my-app'']))
     = Inl ''ENOENT''
   \<and> main (sampleEnv (Inl ''ENOENT'') []) (sampleProgram False False False [''my-app''])
      = (trace (createApplication (sampleEnv (Inl ''ENOENT'') [])
                 (sampleProgram False False False [''my-app''])
                 (appName (sampleEnv (Inl ''ENOENT'') []) (sampleProgram False False False [''my-app'']))
                 (destinationPath (sampleProgram False False False [''my-app'']))),
         thrown (createApplication (sampleEnv (Inl ''ENOENT'') [])
                 (sampleProgram False False False [''my-app''])
                 (appName (sampleEnv (Inl ''ENOENT'') []) (sampleProgram False False False [''my-app'']))
                 (destinationPath (sampleProgram False False False [''my-app'']))))
   \<and> list_all isFsEvent (fst (main (sampleEnv (Inl ''ENOENT'') [])
                                  (sampleProgram False False False [''my-app''])))"
proof -
  have r: "readdir (sampleEnv (Inl ''ENOENT'') [])
             (destinationPath (sampleProgram False False False [''my-app''])) = Inl ''ENOENT''"
    by simp
  from main_missing_destination [OF r] r show ?thesis by blast
qed

lemma main_sample_run:
  "map eventPath (fst (main (sampleEnv (Inl ''ENOENT'') []) (sampleProgram False False False [''my-app''])))
     = [''my-app'', ''my-app/public'', ''my-app/public/js'', ''my-app/public/images'',
        ''my-app/public/css'', ''my-app/public/css/style.css'', ''my-app/routes'',
        ''my-app/routes/users.js'', ''my-app/routes/index.js'', ''my-app/public/index.html'',
        ''my-app/dirname.js'', ''my-app/app.js'', ''my-app/package.json'', ''my-app/bin'',
        ''my-app/bin/www.js'']"
  by code_simp

section \<open>Properties of paths and of the application name in \<open>main\<close>\<close>

lemma splitSlash_segment:
  "CHR ''/'' \<notin> set seg \<Longrightarrow> splitSlash (seg @ CHR ''/'' # rest) = seg # splitSlash rest"
  by (induction seg) auto

lemma splitSlash_join:
  "segs \<noteq> [] \<Longrightarrow> \<forall>seg\<in>set segs. CHR ''/'' \<notin> set seg \<Longrightarrow>
   splitSlash (joinSlash segs @ CHR ''/'' # rest) = segs @ splitSlash rest"
proof (induction segs rule: joinSlash.induct)
  case 1
  then show ?case by simp
next
  case (2 seg)
  then show ?case by (simp add: splitSlash_segment)
next
  case (3 seg v va)
  then have "splitSlash (joinSlash (v # va) @ CHR ''/'' # rest) = (v # va) @ splitSlash rest"
    by simp
  moreover from 3 have "CHR ''/'' \<notin> set seg" by simp
  ultimately show ?case
    using splitSlash_segment [of seg "joinSlash (v # va) @ CHR ''/'' # rest"] by simp
qed

lemma properSegment_noslash: "properSegment seg \<Longrightarrow> CHR ''/'' \<notin> set seg"
  by (auto simp: properSegment_def list_all_iff)

lemma normalizeSegments_proper:
  "list_all properSegment segs \<Longrightarrow>
   normalizeSegments a acc (segs @ rest) = normalizeSegments a (rev segs @ acc) rest"
proof (induction segs arbitrary: acc)
  case Nil
  then show ?case by simp
next
  case (Cons seg segs)
  then have "seg \<noteq> []" "seg \<noteq> ''.''" "seg \<noteq> ''..''" by (simp_all add: properSegment_def)
  with Cons show ?case by simp
qed

lemma resolve_dot:
  assumes "list_all properSegment segs"
  shows "resolve (absolutePath segs) ''.'' = absolutePath segs"
proof (cases "segs = []")
  case True
  have "resolve ''/'' ''.'' = ''/''" by code_simp
  with True show ?thesis by (simp add: absolutePath_def)
next
  case False
  moreover from assms have "\<forall>seg\<in>set segs. CHR ''/'' \<notin> set seg"
    by (auto simp: list_all_iff properSegment_noslash)
  ultimately have "splitSlash (joinSlash segs @ CHR ''/'' # ''./'') = segs @ splitSlash ''./''"
    by (rule splitSlash_join)
  then have split: "splitSlash (joinSlash segs @ ''/./'') = segs @ [''.'', []]"
    by simp
  have n: "normalizeSegments False [] (segs @ [''.'', []]) = segs"
    using normalizeSegments_proper [OF assms, of False "[]" "[''.'', []]"] by simp
  have "normalizeString (CHR ''/'' # joinSlash segs @ ''/./'') False = joinSlash segs"
    by (simp add: normalizeString_def split n)
  then show ?thesis
    by (simp add: resolve_def absolutePath_def isAbsolute_def Let_def)
qed

text \<open>
  C10: the application name comes from the resolved destination path: it is the normalized
  basename of \<open>path.resolve(destinationPath)\<close>, replaced by \<open>hello-world\<close> exactly when that
  is empty; without an argument the destination is \<open>.\<close>, which resolves to the working
  directory, so the name is the normalized name of the working directory.
\<close>

theorem appName_of_resolved_path:
  assumes "cwd e = absolutePath segs" and "list_all properSegment segs"
  shows "appName e program
           = (if createAppName (resolve (cwd e) (destinationPath program)) = [] then ''hello-world''
              else createAppName (resolve (cwd e) (destinationPath program)))
       \<and> (args program = [] \<longrightarrow> destinationPath program = ''.'')
       \<and> (destinationPath program = ''.'' \<longrightarrow>
            resolve (cwd e) (destinationPath program) = cwd e
            \<and> appName e program
                = (if createAppName (cwd e) = [] then ''hello-world'' else createAppName (cwd e)))"
  using resolve_dot [OF assms(2)] assms(1)
  by (simp add: appName_def destinationPath_def Let_def)

theorem appName_of_resolved_path_witness:
  "cwd (sampleEnv (Inr []) []) = absolutePath [''home'', ''dev'', ''My App'']
   \<and> list_all properSegment [''home'', ''dev'', ''My App'']
   \<and> args (sampleProgram False False False []) = []
   \<and> destinationPath (sampleProgram False False False []) = ''.''
   \<and> createAppName (destinationPath (sampleProgram False False False [])) = []
   \<and> resolve (cwd (sampleEnv (Inr []) [])) (destinationPath (sampleProgram False False False []))
       = ''/home/dev/My App''
   \<and> appName (sampleEnv (Inr []) []) (sampleProgram False False False []) = ''my-app''"
proof -
  have c: "cwd (sampleEnv (Inr []) []) = absolutePath [''home'', ''dev'', ''My App'']"
    by (simp add: absolutePath_def)
  have p: "list_all properSegment [''home'', ''dev'', ''My App'']"
    by (simp add: properSegment_def)
  have a: "args (sampleProgram False False False []) = []" by simp
  have n: "createAppName ''/home/dev/My App'' = ''my-app''" "createAppName ''.'' = []"
    by code_simp+
  from appName_of_resolved_path [OF c p, of "sampleProgram False False False []"] a
  have "destinationPath (sampleProgram False False False []) = ''.''"
    and "resolve (cwd (sampleEnv (Inr []) [])) (destinationPath (sampleProgram False False False []))
           = cwd (sampleEnv (Inr []) [])"
    and "appName (sampleEnv (Inr []) []) (sampleProgram False False False [])
           = (if createAppName (cwd (sampleEnv (Inr []) [])) = [] then ''hello-world''
              else createAppName (cwd (sampleEnv (Inr []) [])))"
    by simp_all
  with c p a n show ?thesis by simp
qed

section \<open>Copying a family of templates\<close>

lemma run_copies:
  assumes "thrown s = None"
    and "thrown (run (map (\<lambda>name. copyTemplate e (F name) (T name)) names) s) = None"
  shows "trace (run (map (\<lambda>name. copyTemplate e (F name) (T name)) names) s)
           = trace s @ map (\<lambda>name. WriteFileSync (T name)
                                     (projr (readFileSync e (path_join [TEMPLATE_DIR e, F name])))
                                     MODE_0666) names"
  using assms
proof (induction names arbitrary: s)
  case Nil
  then show ?case by simp
next
  case (Cons n names)
  from Cons.prems have r: "thrown (run (copyTemplate e (F n) (T n)
                                  # map (\<lambda>name. copyTemplate e (F name) (T name)) names) s) = None"
    by simp
  note ok = run_Cons_ok [OF Cons.prems(1) r]
  from copyTemplate_ok [OF ok(2)] obtain str where
    str: "readFileSync e (path_join [TEMPLATE_DIR e, F n]) = Inr str"
      "trace (copyTemplate e (F n) (T n) s) = trace s @ [WriteFileSync (T n) str MODE_0666]"
    by blast
  from ok r have "thrown (run (map (\<lambda>name. copyTemplate e (F name) (T name)) names)
                           (copyTemplate e (F n) (T n) s)) = None" by simp
  from Cons.IH [OF ok(2) this] ok(1) str show ?case by simp
qed

lemma glob_literal:
  "list_all (\<lambda>c. c \<noteq> CHR ''*'' \<and> c \<noteq> CHR ''?'') lit \<Longrightarrow> glob lit f \<longleftrightarrow> f = lit"
proof (induction lit arbitrary: f)
  case Nil
  then show ?case by (cases f) simp_all
next
  case (Cons c lit)
  then show ?case by (cases f) auto
qed

lemma glob_star_literal:
  assumes "list_all (\<lambda>c. c \<noteq> CHR ''*'' \<and> c \<noteq> CHR ''?'') lit"
  shows "glob (CHR ''*'' # lit) f \<Longrightarrow> suffix lit f"
proof (induction f)
  case Nil
  with assms show ?case by (simp add: glob_literal)
next
  case (Cons c f)
  then have "glob lit (c # f) \<or> glob (CHR ''*'' # lit) f" by auto
  then show ?case
  proof
    assume "glob lit (c # f)"
    with assms show ?thesis by (simp add: glob_literal)
  next
    assume "glob (CHR ''*'' # lit) f"
    then have "suffix lit f" by (rule Cons.IH)
    then show ?thesis by (rule suffix_ConsI)
  qed
qed

lemma minimatch_filter_extension:
  assumes "list_all (\<lambda>c. c \<noteq> CHR ''*'' \<and> c \<noteq> CHR ''?'' \<and> c \<noteq> CHR ''/'') ext"
    and "minimatch_filter (CHR ''*'' # ext) name"
  shows "suffix ext (basename name) \<and> \<not> prefix ''.'' (basename name)"
proof -
  from assms(1) have ns: "CHR ''/'' \<notin> set (CHR ''*'' # ext)" by (auto simp: list_all_iff)
  from assms(1) have lit: "list_all (\<lambda>c. c \<noteq> CHR ''*'' \<and> c \<noteq> CHR ''?'') ext"
    by (auto simp: list_all_iff)
  from assms(2) ns have g: "glob (CHR ''*'' # ext) (basename name)"
    and d: "\<not> prefix ''.'' (basename name)"
    by (auto simp: minimatch_filter_def startsWithWildcard_def Let_def)
  from glob_star_literal [OF lit g] d show ?thesis by simp
qed




end
